theory Spec2Isabelle
  imports Complex_Main
begin

section \<open>The voice-stream client hook (frontend/hooks/useVoiceStream.ts)\<close>

subsection \<open>Data\<close>

text \<open>
  JSON values, as \<^verbatim>\<open>JSON.stringify\<close> writes them to the socket. An object is kept as
  the list of its members in the order the object literal gives them.
\<close>

datatype json =
    JNull
  | JBool bool
  | JNum int
  | JStr string
  | JArr "json list"
  | JObj "(string \<times> json) list"

text \<open>
  The JavaScript values \<^verbatim>\<open>JSON.parse\<close> returns. \<^verbatim>\<open>interface Message\<close> is only the
  type the handler declares for them: the cast is not checked, so a received frame may
  be any such value and its members of any kind. A number is a double: a finite value
  (\<open>-0\<close> kept as \<open>0\<close>), or an infinity when the numeral overflows; \<^verbatim>\<open>NaN\<close> cannot be
  written in JSON.
\<close>

datatype js_number = Finite real | PlusInfinity | MinusInfinity

datatype js_value =
    VNull
  | VBool bool
  | VNum js_number
  | VStr string
  | VArr "js_value list"
  | VObj "(string \<times> js_value) list"

text \<open>
  \<^verbatim>\<open>event.data\<close> of a message event: \<^verbatim>\<open>JSON.parse\<close> throws on it, or yields a value.
\<close>

datatype payload = Unparseable | Parsed js_value

datatype ready_state = CONNECTING | OPEN | CLOSING | CLOSED

record web_socket =
  url :: string
  readyState :: ready_state

text \<open>
  One instance of the hook: its parameter and module constant, its React state
  (\<^verbatim>\<open>useState\<close>; \<open>messages\<close>, \<open>transcript\<close> and \<open>error\<close> hold whatever value the
  handlers store, \<open>VNull\<close> being \<^verbatim>\<open>null\<close>), its refs (\<^verbatim>\<open>useRef\<close>), and the part of
  the browser it touches:
  the sockets it has created (a socket's handle is its index), the frames handed to
  \<^verbatim>\<open>send\<close>, the pending timeouts with their due times, and the clock in milliseconds.
  \<open>url_accepted\<close> says whether \<^verbatim>\<open>new WebSocket(url)\<close> returns for this hook's URL
  rather than throws.
\<close>

record hook =
  sessionId :: "string option"
  FASTAPI_WS_URL :: string
  url_accepted :: bool
  isConnected :: bool
  messages :: "js_value list"
  transcript :: js_value
  error :: js_value
  wsRef :: "nat option"
  reconnectTimeoutRef :: "nat option"
  sockets :: "web_socket list"
  sent :: "(nat \<times> json) list"
  timers :: "(nat \<times> nat) list"
  next_timer :: nat
  now :: nat

definition init :: "string option \<Rightarrow> string \<Rightarrow> bool \<Rightarrow> nat \<Rightarrow> hook" where
  "init sid base ok t0 =
     \<lparr> sessionId = sid, FASTAPI_WS_URL = base, url_accepted = ok,
       isConnected = False, messages = [], transcript = VStr [], error = VNull,
       wsRef = None, reconnectTimeoutRef = None,
       sockets = [], sent = [], timers = [], next_timer = 1, now = t0 \<rparr>"

subsection \<open>The hook's functions\<close>

text \<open>
  Reading a property of a received value, \<^verbatim>\<open>message.k\<close>; \<open>None\<close> is \<^verbatim>\<open>undefined\<close>. An
  object gives its member of that name (the last one, as \<^verbatim>\<open>JSON.parse\<close> keeps it, when
  the text repeats a name); a boolean, number, string or array has no property of the
  names the handler reads. On \<^verbatim>\<open>null\<close> the read throws; the handler's model below
  deals with that before it reads.
\<close>

definition member :: "string \<Rightarrow> js_value \<Rightarrow> js_value option" where
  "member k v = (case v of VObj kvs \<Rightarrow> map_of (rev kvs) k | _ \<Rightarrow> None)"

text \<open>
  JavaScript's truthiness, as \<^verbatim>\<open>if (x)\<close> and \<^verbatim>\<open>x || d\<close> test it: \<^verbatim>\<open>undefined\<close>,
  \<^verbatim>\<open>null\<close>, \<^verbatim>\<open>false\<close>, zero and the empty string are falsy, every other value is
  truthy.
\<close>

fun truthy :: "js_value option \<Rightarrow> bool" where
  "truthy None = False"
| "truthy (Some VNull) = False"
| "truthy (Some (VBool b)) = b"
| "truthy (Some (VNum n)) = (n \<noteq> Finite 0)"
| "truthy (Some (VStr s)) = (s \<noteq> [])"
| "truthy (Some (VArr vs)) = True"
| "truthy (Some (VObj kvs)) = True"

text \<open>JavaScript's \<^verbatim>\<open>v || d\<close>: \<open>v\<close> itself when it is truthy, \<open>d\<close> otherwise.\<close>

definition or_else :: "js_value option \<Rightarrow> js_value \<Rightarrow> js_value" where
  "or_else v d = (case v of None \<Rightarrow> d | Some x \<Rightarrow> if truthy (Some x) then x else d)"

text \<open>
  \<^verbatim>\<open>connect\<close>: nothing without a session id; the constructor's exception is caught and
  reported; otherwise the new socket becomes \<^verbatim>\<open>wsRef.current\<close>.
\<close>

definition connect :: "hook \<Rightarrow> hook" where
  "connect h =
     (case sessionId h of
        None \<Rightarrow> h
      | Some sid \<Rightarrow>
          if sid = [] then h
          else if \<not> url_accepted h
            then h\<lparr>error := VStr ''Failed to create WebSocket connection''\<rparr>
          else h\<lparr>sockets := sockets h @
                     [\<lparr>url = FASTAPI_WS_URL h @ ''/ws/voice/'' @ sid, readyState = CONNECTING\<rparr>],
                 wsRef := Some (length (sockets h))\<rparr>)"

text \<open>\<^verbatim>\<open>ws.close()\<close>: a socket that is connecting or open starts closing; otherwise nothing.\<close>

definition close_socket :: "nat \<Rightarrow> web_socket list \<Rightarrow> web_socket list" where
  "close_socket w ss =
     (if w < length ss \<and> (readyState (ss ! w) = CONNECTING \<or> readyState (ss ! w) = OPEN)
      then ss[w := (ss ! w)\<lparr>readyState := CLOSING\<rparr>] else ss)"

definition clearTimeout :: "nat \<Rightarrow> (nat \<times> nat) list \<Rightarrow> (nat \<times> nat) list" where
  "clearTimeout i ts = filter (\<lambda>t. fst t \<noteq> i) ts"

text \<open>
  \<^verbatim>\<open>setTimeout(f, ms)\<close> with the one callback the hook ever schedules (the reconnection):
  a fresh handle, due \<open>ms\<close> from now. Browser handles are positive, hence truthy.
\<close>

definition setTimeout :: "nat \<Rightarrow> hook \<Rightarrow> nat \<times> hook" where
  "setTimeout ms h =
     (next_timer h,
      h\<lparr>timers := timers h @ [(next_timer h, now h + ms)], next_timer := Suc (next_timer h)\<rparr>)"

definition disconnect :: "hook \<Rightarrow> hook" where
  "disconnect h =
     (let h1 = (case reconnectTimeoutRef h of
                  None \<Rightarrow> h
                | Some i \<Rightarrow> h\<lparr>timers := clearTimeout i (timers h)\<rparr>);
          h2 = (case wsRef h1 of
                  None \<Rightarrow> h1
                | Some w \<Rightarrow> h1\<lparr>sockets := close_socket w (sockets h1), wsRef := None\<rparr>)
      in h2\<lparr>isConnected := False\<rparr>)"

definition sendMessage :: "json \<Rightarrow> hook \<Rightarrow> hook" where
  "sendMessage msg h =
     (case wsRef h of
        None \<Rightarrow> h\<lparr>error := VStr ''WebSocket is not connected''\<rparr>
      | Some w \<Rightarrow>
          if w < length (sockets h) \<and> readyState (sockets h ! w) = OPEN
          then h\<lparr>sent := sent h @ [(w, msg)]\<rparr>
          else h\<lparr>error := VStr ''WebSocket is not connected''\<rparr>)"

definition sendAudioChunk :: "string \<Rightarrow> hook \<Rightarrow> hook" where
  "sendAudioChunk audioData h =
     sendMessage (JObj [(''type'', JStr ''audio_chunk''),
                        (''data'', JStr audioData),
                        (''timestamp'', JNum (int (now h)))]) h"

definition sendTextMessage :: "string \<Rightarrow> hook \<Rightarrow> hook" where
  "sendTextMessage txt h =
     sendMessage (JObj [(''type'', JStr ''text_message''), (''text'', JStr txt)]) h"

definition endStream :: "hook \<Rightarrow> hook" where
  "endStream h = disconnect (sendMessage (JObj [(''type'', JStr ''end_stream'')]) h)"

subsection \<open>The socket's handlers\<close>

definition onopen :: "hook \<Rightarrow> hook" where
  "onopen h = h\<lparr>isConnected := True, error := VNull\<rparr>"

text \<open>
  \<^verbatim>\<open>ws.onmessage\<close>, inside its \<^verbatim>\<open>try\<close>: a frame that does not parse throws at once
  and is only logged. A parsed value is appended to \<open>messages\<close> first. On \<^verbatim>\<open>null\<close> the
  read of \<^verbatim>\<open>message.type\<close> then throws and the handler is left with that. Otherwise the
  \<^verbatim>\<open>switch\<close> compares the type with its three string literals by \<^verbatim>\<open>===\<close>; the
  transcript case tests \<^verbatim>\<open>message.is_final\<close> for truthiness and stores
  \<^verbatim>\<open>message.text || ''\<close>.
\<close>

definition onmessage :: "payload \<Rightarrow> hook \<Rightarrow> hook" where
  "onmessage p h =
     (case p of
        Unparseable \<Rightarrow> h
      | Parsed m \<Rightarrow>
          (let h1 = h\<lparr>messages := messages h @ [m]\<rparr> in
             if m = VNull then h1
             else if member ''type'' m = Some (VStr ''transcript'')
               then (if truthy (member ''is_final'' m)
                     then h1\<lparr>transcript := or_else (member ''text'' m) (VStr [])\<rparr> else h1)
             else if member ''type'' m = Some (VStr ''agent_response'') then h1
             else if member ''type'' m = Some (VStr ''error'')
               then h1\<lparr>error := or_else (member ''message'' m) (VStr ''Unknown error'')\<rparr>
             else h1))"

definition onerror :: "hook \<Rightarrow> hook" where
  "onerror h = h\<lparr>error := VStr ''WebSocket connection error''\<rparr>"

definition onclose :: "hook \<Rightarrow> hook" where
  "onclose h =
     (let (i, h1) = setTimeout 3000 (h\<lparr>isConnected := False\<rparr>)
      in h1\<lparr>reconnectTimeoutRef := Some i\<rparr>)"

subsection \<open>Runs of the hook\<close>

text \<open>
  What can happen to a mounted hook: the effect and its cleanup, a call of one of the
  functions it returns, an event of one of its sockets, time passing, and a due timeout
  running its callback. The handlers are the same closures for every socket the hook
  creates, so a message or error event needs no look at the socket that delivers it;
  open and close events move the socket's \<open>readyState\<close>.
\<close>

datatype input =
    Mount
  | Unmount
  | Connect
  | Disconnect
  | SendAudioChunk string
  | SendTextMessage string
  | EndStream
  | WsOpen nat
  | WsMessage nat payload
  | WsError nat
  | WsClose nat
  | Advance nat
  | TimerFires nat

definition set_ready :: "nat \<Rightarrow> ready_state \<Rightarrow> hook \<Rightarrow> hook" where
  "set_ready w r h = h\<lparr>sockets := (sockets h)[w := (sockets h ! w)\<lparr>readyState := r\<rparr>]\<rparr>"

fun step :: "hook \<Rightarrow> input \<Rightarrow> hook" where
  "step h Mount = connect h"
| "step h Unmount = disconnect h"
| "step h Connect = connect h"
| "step h Disconnect = disconnect h"
| "step h (SendAudioChunk a) = sendAudioChunk a h"
| "step h (SendTextMessage t) = sendTextMessage t h"
| "step h EndStream = endStream h"
| "step h (WsOpen w) =
     (if w < length (sockets h) \<and> readyState (sockets h ! w) = CONNECTING
      then onopen (set_ready w OPEN h) else h)"
| "step h (WsMessage w p) = onmessage p h"
| "step h (WsError w) = onerror h"
| "step h (WsClose w) =
     (if w < length (sockets h) \<and> readyState (sockets h ! w) \<noteq> CLOSED
      then onclose (set_ready w CLOSED h) else h)"
| "step h (Advance n) = h\<lparr>now := now h + n\<rparr>"
| "step h (TimerFires i) =
     (case map_of (timers h) i of
        None \<Rightarrow> h
      | Some due \<Rightarrow>
          if due \<le> now h then connect (h\<lparr>timers := clearTimeout i (timers h)\<rparr>) else h)"

definition run :: "hook \<Rightarrow> input list \<Rightarrow> hook" where
  "run h ins = foldl step h ins"

subsection \<open>What a run has received\<close>

text \<open>The payloads of the message events of a run, in arrival order.\<close>

fun received :: "input list \<Rightarrow> payload list" where
  "received [] = []"
| "received (WsMessage w p # ins) = p # received ins"
| "received (i # ins) = received ins"

fun parsed :: "payload list \<Rightarrow> js_value list" where
  "parsed [] = []"
| "parsed (Parsed m # ps) = m # parsed ps"
| "parsed (Unparseable # ps) = parsed ps"

text \<open>
  A transcript message that counts as final for the handler: its type is the string
  \<open>transcript\<close> and its \<open>is_final\<close> is truthy.
\<close>

definition final_transcript :: "js_value \<Rightarrow> bool" where
  "final_transcript m =
     (member ''type'' m = Some (VStr ''transcript'') \<and> truthy (member ''is_final'' m))"

text \<open>
  The text a message carries: its \<open>text\<close> member, and the empty string when it has none
  or a falsy one.
\<close>

definition text_of :: "js_value \<Rightarrow> js_value" where
  "text_of m =
     (case member ''text'' m of
        None \<Rightarrow> VStr []
      | Some t \<Rightarrow> if truthy (Some t) then t else VStr [])"

text \<open>
  The text of the most recent final transcript among the payloads, the empty string
  when there is none.
\<close>

definition latest_final_text :: "payload list \<Rightarrow> js_value" where
  "latest_final_text ps =
     (case rev (filter final_transcript (parsed ps)) of
        [] \<Rightarrow> VStr [] | m # ms \<Rightarrow> text_of m)"

text \<open>
  The same two notions as claim C9 words them: a transcript message whose \<open>is_final\<close> is
  the boolean \<open>true\<close>, and the text of the most recent of those.
\<close>

definition final_as_claimed :: "js_value \<Rightarrow> bool" where
  "final_as_claimed m =
     (member ''type'' m = Some (VStr ''transcript'') \<and> member ''is_final'' m = Some (VBool True))"

definition claimed_transcript :: "payload list \<Rightarrow> js_value" where
  "claimed_transcript ps =
     (case rev (filter final_as_claimed (parsed ps)) of
        [] \<Rightarrow> VStr [] | m # ms \<Rightarrow> text_of m)"

text \<open>A value whose \<open>is_final\<close> is a boolean or absent, as \<^verbatim>\<open>interface Message\<close> declares it.\<close>

definition boolean_is_final :: "js_value \<Rightarrow> bool" where
  "boolean_is_final m =
     (case member ''is_final'' m of None \<Rightarrow> True | Some (VBool b) \<Rightarrow> True | Some v \<Rightarrow> False)"

subsection \<open>The wire protocol's inbound frames\<close>

text \<open>
  The alphabet and padding of base64 (RFC 4648): groups of four characters, the last
  group padded with at most two \<open>=\<close>.
\<close>

definition base64_char :: "char \<Rightarrow> bool" where
  "base64_char c =
     (c \<in> set ''ABCDEFGHIJKLMNOPQRSTUVWXYZabcdefghijklmnopqrstuvwxyz0123456789+/'')"

definition is_base64 :: "string \<Rightarrow> bool" where
  "is_base64 s =
     (length s mod 4 = 0 \<and>
      list_all base64_char (takeWhile (\<lambda>c. c \<noteq> CHR ''='') s) \<and>
      length (dropWhile (\<lambda>c. c \<noteq> CHR ''='') s) \<le> 2 \<and>
      list_all (\<lambda>c. c = CHR ''='') (dropWhile (\<lambda>c. c \<noteq> CHR ''='') s))"

text \<open>
  The frames a client may send, section 6 of the specification: an object with exactly
  the members of its type. \<open>payload_ok\<close> judges the \<open>data\<close> string of an audio chunk;
  the protocol asks for base64 there. The hook never sends the fourth frame, \<open>config\<close>.
\<close>

definition members :: "(string \<times> json) list \<Rightarrow> string list \<Rightarrow> bool" where
  "members kvs names = (distinct (map fst kvs) \<and> set (map fst kvs) = set names)"

definition inbound_frame_with :: "(string \<Rightarrow> bool) \<Rightarrow> json \<Rightarrow> bool" where
  "inbound_frame_with payload_ok j =
     (case j of
        JObj kvs \<Rightarrow>
          (case map_of kvs ''type'' of
             Some (JStr t) \<Rightarrow>
               if t = ''audio_chunk'' then
                 members kvs [''type'', ''data'', ''timestamp''] \<and>
                 (case map_of kvs ''data'' of Some (JStr d) \<Rightarrow> payload_ok d | _ \<Rightarrow> False) \<and>
                 (case map_of kvs ''timestamp'' of Some (JNum n) \<Rightarrow> True | _ \<Rightarrow> False)
               else if t = ''text_message'' then
                 members kvs [''type'', ''text''] \<and>
                 (case map_of kvs ''text'' of Some (JStr x) \<Rightarrow> True | _ \<Rightarrow> False)
               else if t = ''end_stream'' then members kvs [''type'']
               else False
           | _ \<Rightarrow> False)
      | _ \<Rightarrow> False)"

definition inbound_frame :: "json \<Rightarrow> bool" where
  "inbound_frame j = inbound_frame_with is_base64 j"

text \<open>The strings a run passes to \<^verbatim>\<open>sendAudioChunk\<close>, in call order.\<close>

fun audio_arguments :: "input list \<Rightarrow> string list" where
  "audio_arguments [] = []"
| "audio_arguments (SendAudioChunk a # ins) = a # audio_arguments ins"
| "audio_arguments (i # ins) = audio_arguments ins"

text \<open>Every frame handed to \<^verbatim>\<open>send\<close> so far is an inbound frame.\<close>

definition frames_ok :: "(string \<Rightarrow> bool) \<Rightarrow> hook \<Rightarrow> bool" where
  "frames_ok P h = (\<forall>f \<in> snd ` set (sent h). inbound_frame_with P f)"

subsection \<open>Invariant of the hook's runs\<close>

text \<open>
  Timer handles are fresh, every socket was opened by \<open>connect\<close> for this hook's session
  (so the session id is non-empty and the constructor accepted the URL), and
  \<^verbatim>\<open>wsRef.current\<close> is one of the hook's sockets.
\<close>

definition well_formed :: "hook \<Rightarrow> bool" where
  "well_formed h =
     ((\<forall>t \<in> set (timers h). fst t < next_timer h)
      \<and> (\<forall>s \<in> set (sockets h). url_accepted h \<and>
            (case sessionId h of None \<Rightarrow> False
             | Some sid \<Rightarrow> sid \<noteq> [] \<and> url s = FASTAPI_WS_URL h @ ''/ws/voice/'' @ sid))
      \<and> (case wsRef h of None \<Rightarrow> True | Some v \<Rightarrow> v < length (sockets h)))"

section \<open>The session coordinator\<close>

text \<open>
  The server side of the session (the coordinator behind the FastAPI WebSocket route) is
  not among the sources; only its client is. Its state machine is modelled here from
  sections 3 to 7 of the specification: the states and their transitions, the Pending
  Response and its cancellation, the events sent to the transport, and the idle timer
  as far as arming and expiry go. The model has no clock, so the session's timestamps
  and the timer's 15 seconds are left out, as are the turn history and its logging.
\<close>

text \<open>Modelled from the spec: the coordinator's states (section 4.1); its code is missing.\<close>

datatype session_state = Idle | Listening | Thinking | Speaking | Ended

text \<open>
  Modelled from the spec: the bound agent configuration of the missing coordinator's
  Session (section 3): name, system prompt, selected models.
\<close>

record agent_config =
  name :: string
  system_prompt :: string
  models :: "string list"

text \<open>
  Modelled from the spec: the Pending Response of the missing coordinator (sections 3
  and 5), the in-flight classify, generate and synthesize run for one turn. The session
  holds it as a cancellation handle; \<open>responded\<close> says that the response text has been
  sent and the synthesis stream is in flight.
\<close>

record pending_response =
  turn :: nat
  responded :: bool
  cancelled :: bool

text \<open>
  Modelled from the spec: the Session of the missing coordinator (section 3) with its
  Utterance Buffer, the audio held back while a pipeline run is outstanding
  (section 4.1, Thinking), and whether the idle timer is armed.
\<close>

record session =
  session_id :: string
  agent :: agent_config
  state :: session_state
  turn_counter :: nat
  utterance_buffer :: "string list"
  held_audio :: "string list"
  pending :: "pending_response option"
  idle_timer :: bool

text \<open>
  Modelled from the spec: the outbound frames of the wire protocol (section 6), which the
  missing coordinator emits.
\<close>

datatype outbound =
    Transcript string bool
  | Agent_response string
  | Audio_chunk string
  | Error_event string
  | Session_ended string

text \<open>
  Modelled from the spec: the pipeline stages whose failure the missing coordinator
  handles (sections 4.3, 4.4 and 7).
\<close>

datatype stage = Classifier | Generator | Synthesis

text \<open>
  Modelled from the spec: what reaches the missing coordinator's single-consumer queue
  (section 5). From the transport: the four inbound frames and its closure. From the
  transcription adapter: partial and final transcripts and its failure. From a pipeline
  run, tagged with the turn it answers: the generator's text, synthesized audio, the end
  of the synthesis stream, and the failure of a stage. From the timer: its expiry.
\<close>

datatype event =
    Audio_in string int
  | Text_message string
  | End_stream
  | Config "(string \<times> string) list"
  | Transport_closed
  | Partial_transcript string
  | Final_transcript string
  | Response_ready nat string
  | Synthesized nat string
  | Synthesis_done nat
  | Transcription_failed string
  | Pipeline_failed stage nat string
  | Idle_timer_fired

text \<open>
  Modelled from the spec: what the missing coordinator does in answer to an event: send
  an outbound frame to the transport (tagged here with the turn it belongs to, if any),
  feed audio to the transcription adapter, invoke the pipeline for a turn, start the
  synthesis of a response, or signal cancellation to the in-flight calls of a turn.
\<close>

datatype action =
    Send "nat option" outbound
  | Transcribe string
  | Start_pipeline nat string
  | Start_synthesis nat string
  | Cancel nat

text \<open>
  Modelled from the spec: the Session that the missing \<open>open(sessionID, agentConfig)\<close>
  returns on success (section 4.1): bound to the configuration, in \<open>Idle\<close>, its timer
  armed on entry to \<open>Idle\<close>.
\<close>

definition fresh_session :: "string \<Rightarrow> agent_config \<Rightarrow> session" where
  "fresh_session sid cfg =
     \<lparr> session_id = sid, agent = cfg, state = Idle, turn_counter = 0,
       utterance_buffer = [], held_audio = [], pending = None, idle_timer = True \<rparr>"

text \<open>
  Modelled from the spec: whether a pipeline event of turn \<open>r\<close> belongs to the Pending
  Response the missing coordinator holds and has not cancelled. Any other pipeline event
  is a stale result (section 7, CancellationRace).
\<close>

definition outstanding :: "session \<Rightarrow> nat \<Rightarrow> bool" where
  "outstanding s r = (case pending s of None \<Rightarrow> False | Some p \<Rightarrow> turn p = r \<and> \<not> cancelled p)"

text \<open>
  Modelled from the spec: cancellation of a Pending Response by the missing coordinator
  (section 5): it signals the in-flight call, and cancelling twice is a no-op.
\<close>

definition cancel :: "pending_response \<Rightarrow> pending_response \<times> action list" where
  "cancel p = (if cancelled p then (p, []) else (p\<lparr>cancelled := True\<rparr>, [Cancel (turn p)]))"

text \<open>Modelled from the spec: the missing coordinator cancelling whatever it has pending.\<close>

definition cancel_pending :: "session \<Rightarrow> session \<times> action list" where
  "cancel_pending s =
     (case pending s of
        None \<Rightarrow> (s, [])
      | Some p \<Rightarrow> (s\<lparr>pending := Some (fst (cancel p))\<rparr>, snd (cancel p)))"

text \<open>
  Modelled from the spec: barge-in in the missing coordinator (section 4.1): the active
  Pending Response and its synthesis stream are cancelled, the Utterance Buffer is
  discarded, and the session goes directly to \<open>Listening\<close>.
\<close>

definition barge_in :: "session \<Rightarrow> session \<times> action list" where
  "barge_in s =
     (fst (cancel_pending s)\<lparr>state := Listening, utterance_buffer := []\<rparr>, snd (cancel_pending s))"

text \<open>
  Modelled from the spec: \<open>Listening \<rightarrow> Thinking\<close> in the missing coordinator
  (section 4.1): the utterance becomes the next turn, the buffer is cleared, a Pending
  Response is created, the pipeline is invoked, and the idle timer is cancelled as
  pipeline work begins. The final transcript is the turn's first outbound event
  (section 5).
\<close>

definition finalize :: "string \<Rightarrow> session \<Rightarrow> session \<times> action list" where
  "finalize txt s =
     (s\<lparr>state := Thinking, turn_counter := Suc (turn_counter s), utterance_buffer := [],
        pending := Some \<lparr>turn = Suc (turn_counter s), responded = False, cancelled = False\<rparr>,
        idle_timer := False\<rparr>,
      [Send (Some (Suc (turn_counter s))) (Transcript txt True),
       Start_pipeline (Suc (turn_counter s)) txt])"

text \<open>
  Modelled from the spec: a final transcript, or a text message, which bypasses
  transcription, reaching the missing coordinator (sections 4.1, 6 and 8): with a
  Pending Response outstanding it barges in first, then the new utterance is finalized
  and a pipeline run started for it.
\<close>

definition on_final :: "string \<Rightarrow> session \<Rightarrow> session \<times> action list" where
  "on_final txt s =
     (if state s = Thinking \<or> state s = Speaking
      then (fst (finalize txt (fst (barge_in s))),
            snd (barge_in s) @ snd (finalize txt (fst (barge_in s))))
      else finalize txt s)"

text \<open>
  Modelled from the spec: speech activity reaching the missing coordinator
  (section 4.1): \<open>Idle \<rightarrow> Listening\<close> on the first audio chunk or partial transcript,
  the timer armed again on each activity; while a run is outstanding, audio is held back
  and partial transcripts only accumulate.
\<close>

definition on_audio :: "string \<Rightarrow> session \<Rightarrow> session \<times> action list" where
  "on_audio d s =
     (if state s = Thinking \<or> state s = Speaking
      then (s\<lparr>held_audio := held_audio s @ [d]\<rparr>, [])
      else (s\<lparr>state := Listening, idle_timer := True\<rparr>, [Transcribe d]))"

text \<open>
  Modelled from the spec: a partial transcript reaching the missing coordinator; it is
  passed on as a \<open>transcript\<close> frame that is not final (section 6).
\<close>

definition on_partial :: "string \<Rightarrow> session \<Rightarrow> session \<times> action list" where
  "on_partial txt s =
     (if state s = Thinking \<or> state s = Speaking
      then (s\<lparr>utterance_buffer := utterance_buffer s @ [txt]\<rparr>, [Send None (Transcript txt False)])
      else (s\<lparr>state := Listening, utterance_buffer := utterance_buffer s @ [txt],
              idle_timer := True\<rparr>,
            [Send None (Transcript txt False)]))"

text \<open>
  Modelled from the spec: the generator's text reaching the missing coordinator
  (section 4.1): the response text is sent at once and synthesis started; a stale result
  is dropped (sections 4.3 and 7).
\<close>

definition on_response :: "nat \<Rightarrow> string \<Rightarrow> session \<Rightarrow> session \<times> action list" where
  "on_response r txt s =
     (case pending s of
        None \<Rightarrow> (s, [])
      | Some p \<Rightarrow>
          if turn p = r \<and> \<not> cancelled p \<and> \<not> responded p
          then (s\<lparr>pending := Some (p\<lparr>responded := True\<rparr>)\<rparr>,
                [Send (Some r) (Agent_response txt), Start_synthesis r txt])
          else (s, []))"

text \<open>
  Modelled from the spec: synthesized audio reaching the missing coordinator
  (section 4.1, \<open>Thinking \<rightarrow> Speaking\<close>): it is streamed on; audio of a cancelled
  turn is discarded (section 4.4).
\<close>

definition on_synthesized :: "nat \<Rightarrow> string \<Rightarrow> session \<Rightarrow> session \<times> action list" where
  "on_synthesized r d s =
     (case pending s of
        None \<Rightarrow> (s, [])
      | Some p \<Rightarrow>
          if turn p = r \<and> \<not> cancelled p \<and> responded p
          then (s\<lparr>state := Speaking\<rparr>, [Send (Some r) (Audio_chunk d)])
          else (s, []))"

text \<open>
  Modelled from the spec: the end of the synthesis stream reaching the missing
  coordinator (section 4.1, \<open>Speaking \<rightarrow> Idle\<close>): the turn is complete, the timer is
  armed, and the session is \<open>Idle\<close> unless new user speech has begun.
\<close>

definition on_synthesis_done :: "nat \<Rightarrow> session \<Rightarrow> session \<times> action list" where
  "on_synthesis_done r s =
     (case pending s of
        None \<Rightarrow> (s, [])
      | Some p \<Rightarrow>
          if turn p = r \<and> \<not> cancelled p \<and> responded p
          then (s\<lparr>state := (if utterance_buffer s = [] then Idle else Listening),
                  pending := None, idle_timer := True\<rparr>, [])
          else (s, []))"

text \<open>
  Modelled from the spec: the missing coordinator's answer to an adapter error
  (sections 4.1 and 7): the run in flight is abandoned, the unfinished utterance is
  dropped, a typed error event is sent, and the session is \<open>Idle\<close> again with its timer
  armed.
\<close>

definition recover :: "string \<Rightarrow> session \<Rightarrow> session \<times> action list" where
  "recover msg s =
     (fst (cancel_pending s)\<lparr>state := Idle, utterance_buffer := [], idle_timer := True\<rparr>,
      snd (cancel_pending s) @ [Send None (Error_event msg)])"

text \<open>
  Modelled from the spec: the failure of a pipeline stage reaching the missing
  coordinator: an adapter error when it comes from the outstanding run, a stale result
  to be dropped silently otherwise (section 7).
\<close>

definition on_pipeline_failed :: "nat \<Rightarrow> string \<Rightarrow> session \<Rightarrow> session \<times> action list" where
  "on_pipeline_failed r msg s = (if outstanding s r then recover msg s else (s, []))"

text \<open>
  Modelled from the spec: \<open>close()\<close> of the missing coordinator (section 4.1): the
  adapters' streams are released, the timer is cancelled, the session is \<open>Ended\<close>.
\<close>

definition close :: "session \<Rightarrow> session \<times> action list" where
  "close s = (fst (cancel_pending s)\<lparr>state := Ended, idle_timer := False\<rparr>, snd (cancel_pending s))"

text \<open>
  Modelled from the spec: expiry of the idle timer in the missing coordinator
  (section 4.1): in \<open>Idle\<close> or \<open>Listening\<close> with the timer armed, the timeout notice is
  sent and the session ends.
\<close>

definition on_timer :: "session \<Rightarrow> session \<times> action list" where
  "on_timer s =
     (if idle_timer s \<and> (state s = Idle \<or> state s = Listening)
      then (fst (close s), snd (close s) @ [Send None (Session_ended ''timeout'')])
      else (s, []))"

text \<open>
  Modelled from the spec: \<open>handleInbound\<close> of the missing coordinator (section 4.1),
  taking one event off the session's queue. An ended session takes nothing; a
  \<open>config\<close> frame leaves the bound configuration as it is (section 3).
\<close>

fun dispatch :: "session \<Rightarrow> event \<Rightarrow> session \<times> action list" where
  "dispatch s (Audio_in d ts) = on_audio d s"
| "dispatch s (Text_message txt) = on_final txt s"
| "dispatch s End_stream = close s"
| "dispatch s (Config kvs) = (s, [])"
| "dispatch s Transport_closed = close s"
| "dispatch s (Partial_transcript txt) = on_partial txt s"
| "dispatch s (Final_transcript txt) = on_final txt s"
| "dispatch s (Response_ready r txt) = on_response r txt s"
| "dispatch s (Synthesized r d) = on_synthesized r d s"
| "dispatch s (Synthesis_done r) = on_synthesis_done r s"
| "dispatch s (Transcription_failed msg) = recover msg s"
| "dispatch s (Pipeline_failed stg r msg) = on_pipeline_failed r msg s"
| "dispatch s Idle_timer_fired = on_timer s"

definition handleInbound :: "session \<Rightarrow> event \<Rightarrow> session \<times> action list" where
  "handleInbound s ev = (if state s = Ended then (s, []) else dispatch s ev)"

text \<open>
  Modelled from the spec: the missing coordinator's session task (section 5), draining
  the queue one event after the other and so serializing the transitions; the result
  is the session and everything it did, in order.
\<close>

fun process :: "session \<Rightarrow> event list \<Rightarrow> session \<times> action list" where
  "process s [] = (s, [])"
| "process s (ev # evs) =
     (fst (process (fst (handleInbound s ev)) evs),
      snd (handleInbound s ev) @ snd (process (fst (handleInbound s ev)) evs))"

text \<open>Modelled from the spec: the frames among the missing coordinator's actions, in order.\<close>

fun sends :: "action list \<Rightarrow> outbound list" where
  "sends [] = []"
| "sends (Send t ev # as) = ev # sends as"
| "sends (a # as) = sends as"

text \<open>
  Modelled from the spec: an \<open>agent_response\<close> or \<open>audio_chunk\<close> frame attributable to
  turn \<open>a\<close> (section 8, barge-in property).
\<close>

fun response_of :: "nat \<Rightarrow> action \<Rightarrow> bool" where
  "response_of a (Send (Some r) (Agent_response txt)) = (r = a)"
| "response_of a (Send (Some r) (Audio_chunk d)) = (r = a)"
| "response_of a act = False"

text \<open>
  Modelled from the spec: the relation the missing coordinator keeps between its state
  and its Pending Response: a run is outstanding exactly in \<open>Thinking\<close> and \<open>Speaking\<close>,
  and it answers a turn already counted.
\<close>

definition coherent :: "session \<Rightarrow> bool" where
  "coherent s =
     (case pending s of
        None \<Rightarrow> state s \<noteq> Thinking \<and> state s \<noteq> Speaking
      | Some p \<Rightarrow>
          turn p \<le> turn_counter s \<and>
          ((state s = Thinking \<or> state s = Speaking) = (\<not> cancelled p)))"

text \<open>
  Modelled from the spec: a turn the missing coordinator has counted and holds no
  outstanding run for; whatever a pipeline still reports for it is a stale result.
\<close>

definition retired :: "nat \<Rightarrow> session \<Rightarrow> bool" where
  "retired a s = (a \<le> turn_counter s \<and> \<not> outstanding s a)"

section \<open>Properties of the client hook\<close>

subsection \<open>Frame lemmas: what each function leaves alone\<close>

lemma run_snoc: "run h (ins @ [i]) = step (run h ins) i"
  by (simp add: run_def)

lemma run_Cons: "run h (i # ins) = run (step h i) ins"
  by (simp add: run_def)

lemma run_Nil: "run h [] = h"
  by (simp add: run_def)

lemma received_append: "received (ins @ js) = received ins @ received js"
  by (induction ins rule: received.induct) simp_all

lemma parsed_append: "parsed (ps @ qs) = parsed ps @ parsed qs"
  by (induction ps rule: parsed.induct) simp_all

lemma or_else_empty: "or_else (member ''text'' m) (VStr []) = text_of m"
  by (simp add: or_else_def text_of_def split: option.splits)

lemma final_as_claimed_boolean:
  "boolean_is_final m \<Longrightarrow> final_transcript m = final_as_claimed m"
  by (auto simp: boolean_is_final_def final_transcript_def final_as_claimed_def
        split: option.splits js_value.splits)

lemma member_VNull: "member k VNull = None"
  by (simp add: member_def)

lemma transcript_onmessage:
  "transcript (onmessage p h) =
     (case p of Unparseable \<Rightarrow> transcript h
      | Parsed m \<Rightarrow> if final_transcript m then text_of m else transcript h)"
  by (auto simp: onmessage_def final_transcript_def or_else_empty member_VNull Let_def
        split: payload.splits)

lemma messages_onmessage: "messages (onmessage p h) = messages h @ parsed [p]"
  by (cases p) (simp_all add: onmessage_def Let_def)

lemma transcript_connect: "transcript (connect h) = transcript h"
  by (simp add: connect_def split: option.splits)

lemma messages_connect: "messages (connect h) = messages h"
  by (simp add: connect_def split: option.splits)

lemma transcript_disconnect: "transcript (disconnect h) = transcript h"
  by (simp add: disconnect_def Let_def split: option.splits)

lemma messages_disconnect: "messages (disconnect h) = messages h"
  by (simp add: disconnect_def Let_def split: option.splits)

lemma transcript_sendMessage: "transcript (sendMessage j h) = transcript h"
  by (simp add: sendMessage_def split: option.splits)

lemma messages_sendMessage: "messages (sendMessage j h) = messages h"
  by (simp add: sendMessage_def split: option.splits)

lemma transcript_onclose: "transcript (onclose h) = transcript h"
  by (simp add: onclose_def setTimeout_def)

lemma messages_onclose: "messages (onclose h) = messages h"
  by (simp add: onclose_def setTimeout_def)

lemmas transcript_frame =
  transcript_connect transcript_disconnect transcript_sendMessage transcript_onclose

lemmas messages_frame =
  messages_connect messages_disconnect messages_sendMessage messages_onclose

subsection \<open>The transcript and the message list\<close>

lemma transcript_step:
  "transcript (step h i) =
     (case received [i] of
        [Parsed m] \<Rightarrow> if final_transcript m then text_of m else transcript h
      | _ \<Rightarrow> transcript h)"
  by (cases i)
     (simp_all add: transcript_frame transcript_onmessage sendAudioChunk_def sendTextMessage_def
        endStream_def onopen_def onerror_def set_ready_def split: payload.splits option.splits)

lemma messages_step: "messages (step h i) = messages h @ parsed (received [i])"
  by (cases i)
     (simp_all add: messages_frame messages_onmessage sendAudioChunk_def sendTextMessage_def
        endStream_def onopen_def onerror_def set_ready_def split: option.splits)

lemma transcript_run:
  "transcript (run h ins) =
     (case rev (filter final_transcript (parsed (received ins))) of
        [] \<Rightarrow> transcript h | m # ms \<Rightarrow> text_of m)"
proof (induction ins rule: rev_induct)
  case Nil
  show ?case by (simp add: run_def)
next
  case (snoc i ins)
  show ?case
  proof (cases "received [i]")
    case Nil
    with snoc show ?thesis
      by (simp add: run_snoc transcript_step received_append parsed_append)
  next
    case (Cons p ps)
    then have one: "received [i] = [p]" by (cases i) simp_all
    show ?thesis
    proof (cases p)
      case Unparseable
      with one snoc show ?thesis
        by (simp add: run_snoc transcript_step received_append parsed_append)
    next
      case (Parsed m)
      with one snoc show ?thesis
        by (simp add: run_snoc transcript_step received_append parsed_append)
    qed
  qed
qed

lemma messages_run: "messages (run h ins) = messages h @ parsed (received ins)"
  by (induction ins rule: rev_induct)
     (simp_all add: run_def messages_step received_append parsed_append)

text \<open>
  Claim C9, as amended. Whatever happens to the hook (calls, socket events, timeouts, in
  any order) and whatever values the frames parse to, its \<open>transcript\<close> is the text of
  the most recent received message whose type is \<open>transcript\<close> and whose \<open>is_final\<close> is
  truthy, and the empty string when none has arrived; its \<open>messages\<close> are the received
  values that parsed, in arrival order. A message that is not such a final transcript
  (a transcript with a falsy or missing \<open>is_final\<close>, a message of another type, a value
  that is no object) and a frame that does not parse leave the transcript as it was.
  When \<open>is_final\<close> is a boolean or absent in every value received, as the protocol
  has it, truthy means \<open>true\<close> and the transcript is the one the claim names.
\<close>

theorem transcript_tracks_latest_final:
  "transcript (run (init sid base ok t0) ins) = latest_final_text (received ins)
   \<and> messages (run (init sid base ok t0) ins) = parsed (received ins)
   \<and> (\<not> final_transcript m \<longrightarrow> transcript (step h (WsMessage w (Parsed m))) = transcript h)
   \<and> transcript (step h (WsMessage w Unparseable)) = transcript h
   \<and> (list_all boolean_is_final (parsed (received ins)) \<longrightarrow>
        transcript (run (init sid base ok t0) ins) = claimed_transcript (received ins))"
proof -
  have t0: "transcript (init sid base ok t0) = VStr []"
    and m0: "messages (init sid base ok t0) = []"
    by (simp_all add: init_def)
  have same: "filter final_transcript (parsed (received ins))
      = filter final_as_claimed (parsed (received ins))"
    if "list_all boolean_is_final (parsed (received ins))"
    using that by (intro filter_cong refl) (simp add: list_all_iff final_as_claimed_boolean)
  have run: "transcript (run (init sid base ok t0) ins) = latest_final_text (received ins)"
    by (simp add: transcript_run latest_final_text_def t0 cong: list.case_cong)
  have claimed: "list_all boolean_is_final (parsed (received ins)) \<longrightarrow>
      transcript (run (init sid base ok t0) ins) = claimed_transcript (received ins)"
    by (simp add: run latest_final_text_def claimed_transcript_def same)
  show ?thesis
    using run claimed by (simp add: messages_run m0 transcript_onmessage)
qed

theorem transcript_tracks_latest_final_witness:
  "\<not> final_transcript (VObj [(''type'', VStr ''transcript''), (''text'', VStr ''hello wor''),
        (''is_final'', VBool False)])
   \<and> transcript (step (run (init (Some ''s1'') ''ws://localhost:8001'' True 0)
        [Mount, WsOpen 0,
         WsMessage 0 (Parsed (VObj [(''type'', VStr ''transcript''), (''text'', VStr ''hello''),
            (''is_final'', VBool True)]))])
        (WsMessage 0 (Parsed (VObj [(''type'', VStr ''transcript''),
            (''text'', VStr ''hello wor''), (''is_final'', VBool False)])))) = VStr ''hello''
   \<and> transcript (run (init (Some ''s1'') ''ws://localhost:8001'' True 0)
        [Mount, WsOpen 0,
         WsMessage 0 (Parsed (VObj [(''type'', VStr ''transcript''), (''text'', VStr ''hello''),
            (''is_final'', VBool True)])),
         WsMessage 0 (Parsed (VObj [(''type'', VStr ''transcript''),
            (''text'', VStr ''hello wor''), (''is_final'', VBool False)])),
         WsMessage 0 Unparseable,
         WsMessage 0 (Parsed VNull),
         WsMessage 0 (Parsed (VObj [(''type'', VStr ''agent_response''),
            (''text'', VStr ''hi there'')]))]) = VStr ''hello''
   \<and> list_all boolean_is_final (parsed (received
        [Mount, WsOpen 0,
         WsMessage 0 (Parsed (VObj [(''type'', VStr ''transcript''), (''text'', VStr ''hello''),
            (''is_final'', VBool True)])),
         WsMessage 0 (Parsed (VObj [(''type'', VStr ''transcript''),
            (''text'', VStr ''hello wor''), (''is_final'', VBool False)])),
         WsMessage 0 Unparseable,
         WsMessage 0 (Parsed VNull),
         WsMessage 0 (Parsed (VObj [(''type'', VStr ''agent_response''),
            (''text'', VStr ''hi there'')]))]))
   \<and> claimed_transcript (received
        [Mount, WsOpen 0,
         WsMessage 0 (Parsed (VObj [(''type'', VStr ''transcript''), (''text'', VStr ''hello''),
            (''is_final'', VBool True)])),
         WsMessage 0 (Parsed (VObj [(''type'', VStr ''transcript''),
            (''text'', VStr ''hello wor''), (''is_final'', VBool False)])),
         WsMessage 0 Unparseable,
         WsMessage 0 (Parsed VNull),
         WsMessage 0 (Parsed (VObj [(''type'', VStr ''agent_response''),
            (''text'', VStr ''hi there'')]))]) = VStr ''hello''"
  using transcript_tracks_latest_final
    [of "Some ''s1''" "''ws://localhost:8001''" True 0
      "[Mount, WsOpen 0,
         WsMessage 0 (Parsed (VObj [(''type'', VStr ''transcript''), (''text'', VStr ''hello''),
            (''is_final'', VBool True)])),
         WsMessage 0 (Parsed (VObj [(''type'', VStr ''transcript''),
            (''text'', VStr ''hello wor''), (''is_final'', VBool False)])),
         WsMessage 0 Unparseable,
         WsMessage 0 (Parsed VNull),
         WsMessage 0 (Parsed (VObj [(''type'', VStr ''agent_response''),
            (''text'', VStr ''hi there'')]))]"
      "VObj [(''type'', VStr ''transcript''), (''text'', VStr ''hello wor''),
        (''is_final'', VBool False)]"
      "run (init (Some ''s1'') ''ws://localhost:8001'' True 0)
        [Mount, WsOpen 0,
         WsMessage 0 (Parsed (VObj [(''type'', VStr ''transcript''), (''text'', VStr ''hello''),
            (''is_final'', VBool True)]))]" 0]
    transcript_tracks_latest_final
    [of "Some ''s1''" "''ws://localhost:8001''" True 0
      "[Mount, WsOpen 0,
         WsMessage 0 (Parsed (VObj [(''type'', VStr ''transcript''), (''text'', VStr ''hello''),
            (''is_final'', VBool True)]))]"]
  by (simp add: latest_final_text_def final_transcript_def text_of_def member_def
      claimed_transcript_def final_as_claimed_def boolean_is_final_def)

text \<open>
  The claim as it stands, with \<open>is_final\<close> true, fails: a transcript frame whose
  \<open>is_final\<close> is the number 1 is no message with \<open>is_final\<close> true, yet the handler
  stores its text.
\<close>

theorem transcript_tracks_latest_final_counterexample:
  "transcript (run (init (Some ''s1'') ''ws://localhost:8001'' True 0)
      [Mount, WsOpen 0,
       WsMessage 0 (Parsed (VObj [(''type'', VStr ''transcript''), (''text'', VStr ''hello''),
          (''is_final'', VNum (Finite 1))]))])
   \<noteq> claimed_transcript (received
      [Mount, WsOpen 0,
       WsMessage 0 (Parsed (VObj [(''type'', VStr ''transcript''), (''text'', VStr ''hello''),
          (''is_final'', VNum (Finite 1))]))])"
  by (simp add: run_def init_def connect_def set_ready_def onopen_def onmessage_def
      claimed_transcript_def final_as_claimed_def member_def or_else_def Let_def)

subsection \<open>Frames sent\<close>

lemma audio_frame_ok:
  "inbound_frame_with P (JObj [(''type'', JStr ''audio_chunk''), (''data'', JStr a),
      (''timestamp'', JNum t)]) = P a"
  by (simp add: inbound_frame_with_def members_def insert_commute)

lemma text_frame_ok:
  "inbound_frame_with P (JObj [(''type'', JStr ''text_message''), (''text'', JStr x)])"
  by (simp add: inbound_frame_with_def members_def)

lemma end_frame_ok: "inbound_frame_with P (JObj [(''type'', JStr ''end_stream'')])"
  by (simp add: inbound_frame_with_def members_def)

lemma sent_sendMessage:
  "sent (sendMessage j h) = sent h \<or> (\<exists>w. sent (sendMessage j h) = sent h @ [(w, j)])"
  by (simp add: sendMessage_def split: option.splits)

lemma sent_disconnect: "sent (disconnect h) = sent h"
  by (simp add: disconnect_def Let_def split: option.splits)

lemma sent_connect: "sent (connect h) = sent h"
  by (simp add: connect_def split: option.splits)

lemma sent_onmessage: "sent (onmessage p h) = sent h"
  by (simp add: onmessage_def Let_def split: payload.splits)

lemma sent_onclose: "sent (onclose h) = sent h"
  by (simp add: onclose_def setTimeout_def)

lemma frames_ok_sendMessage:
  "frames_ok P h \<Longrightarrow> inbound_frame_with P j \<Longrightarrow> frames_ok P (sendMessage j h)"
  using sent_sendMessage [of j h] by (auto simp: frames_ok_def)

lemma frames_ok_same: "sent h' = sent h \<Longrightarrow> frames_ok P h \<Longrightarrow> frames_ok P h'"
  by (simp add: frames_ok_def)

lemma frames_ok_step:
  assumes "frames_ok P h" and "\<forall>a \<in> set (audio_arguments [i]). P a"
  shows "frames_ok P (step h i)"
proof (cases i)
  case (SendAudioChunk a)
  with assms show ?thesis
    by (simp add: sendAudioChunk_def frames_ok_sendMessage audio_frame_ok)
next
  case (SendTextMessage t)
  with assms show ?thesis
    by (simp add: sendTextMessage_def frames_ok_sendMessage text_frame_ok)
next
  case EndStream
  with assms show ?thesis
    by (simp add: endStream_def frames_ok_sendMessage end_frame_ok
        frames_ok_same [OF sent_disconnect])
next
  case (TimerFires j)
  with assms show ?thesis
    by (auto simp: frames_ok_def sent_connect split: option.splits)
qed (use assms in \<open>simp_all add: frames_ok_def sent_connect sent_disconnect sent_onmessage
       sent_onclose onopen_def onerror_def set_ready_def\<close>)

lemma audio_arguments_Cons:
  "set (audio_arguments (i # ins)) = set (audio_arguments [i]) \<union> set (audio_arguments ins)"
  by (cases i) simp_all

lemma frames_ok_run:
  "frames_ok P h \<Longrightarrow> \<forall>a \<in> set (audio_arguments ins). P a \<Longrightarrow> frames_ok P (run h ins)"
proof (induction ins arbitrary: h)
  case Nil
  then show ?case by (simp add: run_def)
next
  case (Cons i ins)
  from Cons.prems(2) have both:
    "(\<forall>a \<in> set (audio_arguments [i]). P a) \<and> (\<forall>a \<in> set (audio_arguments ins). P a)"
    using audio_arguments_Cons [of i ins] by auto
  from Cons.prems(1) both have a: "frames_ok P (step h i)"
    by (intro frames_ok_step) simp_all
  from both have b: "\<forall>a \<in> set (audio_arguments ins). P a"
    by simp
  show ?case
    using Cons.IH [OF a b] by (simp add: run_Cons)
qed

text \<open>
  Claim C8, as amended. Every frame the hook hands to the socket, in any run, is an
  \<open>audio_chunk\<close>, a \<open>text_message\<close> or an \<open>end_stream\<close> object with exactly the members
  the protocol declares for its type: a string \<open>data\<close> and an integer \<open>timestamp\<close>, a
  string \<open>text\<close>, or nothing more. The \<open>data\<close> of an audio chunk is a string its caller
  passed to \<^verbatim>\<open>sendAudioChunk\<close>, unchanged: the hook neither encodes nor checks it. So
  when all those strings are base64, every frame sent is an inbound frame of the
  protocol.
\<close>

theorem sent_frames_conform:
  "(\<forall>f \<in> snd ` set (sent (run (init sid base ok t0) ins)).
       inbound_frame_with (\<lambda>d. d \<in> set (audio_arguments ins)) f)
   \<and> (list_all is_base64 (audio_arguments ins) \<longrightarrow>
       (\<forall>f \<in> snd ` set (sent (run (init sid base ok t0) ins)). inbound_frame f))"
proof -
  have start: "frames_ok P (init sid base ok t0)" for P
    by (simp add: frames_ok_def init_def)
  have "frames_ok (\<lambda>d. d \<in> set (audio_arguments ins)) (run (init sid base ok t0) ins)"
    by (rule frames_ok_run [OF start]) simp
  moreover have "frames_ok is_base64 (run (init sid base ok t0) ins)"
    if "list_all is_base64 (audio_arguments ins)"
    using that by (intro frames_ok_run [OF start]) (simp add: list_all_iff)
  ultimately show ?thesis
    by (simp add: frames_ok_def inbound_frame_def)
qed

theorem sent_frames_conform_witness:
  "list_all is_base64 (audio_arguments
      [Mount, WsOpen 0, SendAudioChunk ''UklGRg=='', SendTextMessage ''hi'', EndStream])
   \<and> sent (run (init (Some ''s1'') ''ws://localhost:8001'' True 1700000000000)
        [Mount, WsOpen 0, SendAudioChunk ''UklGRg=='', SendTextMessage ''hi'', EndStream]) \<noteq> []
   \<and> list_all inbound_frame (map snd (sent (run (init (Some ''s1'') ''ws://localhost:8001'' True 1700000000000)
        [Mount, WsOpen 0, SendAudioChunk ''UklGRg=='', SendTextMessage ''hi'', EndStream])))"
proof -
  have b: "list_all is_base64 (audio_arguments
      [Mount, WsOpen 0, SendAudioChunk ''UklGRg=='', SendTextMessage ''hi'', EndStream])"
    by (simp add: is_base64_def base64_char_def)
  have s: "sent (run (init (Some ''s1'') ''ws://localhost:8001'' True 1700000000000)
        [Mount, WsOpen 0, SendAudioChunk ''UklGRg=='', SendTextMessage ''hi'', EndStream]) \<noteq> []"
    by (simp add: run_def init_def connect_def set_ready_def onopen_def sendAudioChunk_def
      sendTextMessage_def endStream_def sendMessage_def disconnect_def close_socket_def Let_def)
  from b s sent_frames_conform [of "Some ''s1''" "''ws://localhost:8001''" True 1700000000000
      "[Mount, WsOpen 0, SendAudioChunk ''UklGRg=='', SendTextMessage ''hi'', EndStream]"]
  show ?thesis by (simp add: list_all_iff)
qed

text \<open>
  The claim as it stands, with base64 \<open>data\<close> in every audio chunk sent, fails: on an open
  socket \<^verbatim>\<open>sendAudioChunk('!')\<close> sends a frame whose \<open>data\<close> is \<open>!\<close>.
\<close>

theorem sent_frames_conform_counterexample:
  "\<not> (\<forall>f \<in> snd ` set (sent (run (init (Some ''s1'') ''ws://localhost:8001'' True 1700000000000)
          [Mount, WsOpen 0, SendAudioChunk ''!''])). inbound_frame f)"
  by (simp add: run_def init_def connect_def set_ready_def onopen_def sendAudioChunk_def
      sendMessage_def inbound_frame_def inbound_frame_with_def members_def is_base64_def)

subsection \<open>Reconnection\<close>

lemma well_formed_init: "well_formed (init sid base ok t0)"
  by (simp add: well_formed_def init_def)

lemma well_formed_connect: "well_formed h \<Longrightarrow> well_formed (connect h)"
  by (auto simp: well_formed_def connect_def split: option.splits)

lemma in_set_clearTimeout: "t \<in> set (clearTimeout i ts) \<Longrightarrow> t \<in> set ts"
  by (simp add: clearTimeout_def)

lemma in_set_update:
  "s \<in> set (xs[w := y]) \<Longrightarrow> s = y \<or> s \<in> set xs"
  using set_update_subset_insert [of xs w y] by auto

lemma url_close_socket:
  "s \<in> set (close_socket w ss) \<Longrightarrow> \<exists>s' \<in> set ss. url s = url s'"
  by (auto simp: close_socket_def dest!: in_set_update split: if_splits)

lemma length_close_socket: "length (close_socket w ss) = length ss"
  by (simp add: close_socket_def)

lemma well_formed_disconnect: "well_formed h \<Longrightarrow> well_formed (disconnect h)"
  unfolding well_formed_def disconnect_def Let_def
  by (auto split: option.splits dest: in_set_clearTimeout url_close_socket)

lemma well_formed_sendMessage: "well_formed h \<Longrightarrow> well_formed (sendMessage j h)"
  by (auto simp: well_formed_def sendMessage_def split: option.splits)

lemma well_formed_onmessage: "well_formed h \<Longrightarrow> well_formed (onmessage p h)"
  by (auto simp: well_formed_def onmessage_def Let_def split: option.splits payload.splits)

lemma well_formed_set_ready:
  assumes "well_formed h" and "w < length (sockets h)"
  shows "well_formed (set_ready w r h)"
proof -
  from assms(2) have "sockets h ! w \<in> set (sockets h)" by simp
  with assms(1) show ?thesis
    unfolding well_formed_def set_ready_def
    by (auto split: option.splits dest!: in_set_update)
qed

lemma well_formed_onclose: "well_formed h \<Longrightarrow> well_formed (onclose h)"
  by (auto simp: well_formed_def onclose_def setTimeout_def split: option.splits)

lemma well_formed_onopen: "well_formed h \<Longrightarrow> well_formed (onopen h)"
  by (auto simp: well_formed_def onopen_def split: option.splits)

lemma well_formed_step: "well_formed h \<Longrightarrow> well_formed (step h i)"
proof (cases i)
  case (TimerFires j)
  assume wf: "well_formed h"
  then have "well_formed (h\<lparr>timers := clearTimeout j (timers h)\<rparr>)"
    by (auto simp: well_formed_def dest: in_set_clearTimeout split: option.splits)
  with wf TimerFires show ?thesis
    by (simp add: well_formed_connect split: option.splits)
next
  case (Advance n)
  assume "well_formed h"
  with Advance show ?thesis by (simp add: well_formed_def split: option.splits)
next
  case (WsError w)
  assume "well_formed h"
  with WsError show ?thesis by (simp add: well_formed_def onerror_def split: option.splits)
qed (simp_all add: well_formed_connect well_formed_disconnect well_formed_sendMessage
       well_formed_onmessage well_formed_set_ready well_formed_onclose well_formed_onopen
       sendAudioChunk_def sendTextMessage_def endStream_def)

lemma well_formed_run: "well_formed h \<Longrightarrow> well_formed (run h ins)"
  by (induction ins arbitrary: h) (simp_all add: run_def well_formed_step)


lemma map_of_fresh: "\<forall>t \<in> set ts. fst t < n \<Longrightarrow> map_of ts (n::nat) = None"
  by (auto simp: map_of_eq_None_iff)

lemma close_event:
  assumes "w < length (sockets h)" and "readyState (sockets h ! w) \<noteq> CLOSED"
  shows "step h (WsClose w) =
           h\<lparr>sockets := (sockets h)[w := (sockets h ! w)\<lparr>readyState := CLOSED\<rparr>],
             isConnected := False,
             timers := timers h @ [(next_timer h, now h + 3000)],
             next_timer := Suc (next_timer h),
             reconnectTimeoutRef := Some (next_timer h)\<rparr>"
  using assms by (simp add: onclose_def setTimeout_def set_ready_def)

lemma reconnect_fires:
  assumes wf: "well_formed h"
    and w: "w < length (sockets h)" and op: "readyState (sockets h ! w) \<noteq> CLOSED"
    and n: "3000 \<le> n"
  shows "map_of (timers (step h (WsClose w))) (next_timer h) = Some (now h + 3000)"
    and "wsRef (step (step (step h (WsClose w)) (Advance n)) (TimerFires (next_timer h)))
           = Some (length (sockets h))"
    and "sockets (step (step (step h (WsClose w)) (Advance n)) (TimerFires (next_timer h)))
           = (sockets h)[w := (sockets h ! w)\<lparr>readyState := CLOSED\<rparr>] @
             [\<lparr>url = url (sockets h ! w), readyState = CONNECTING\<rparr>]"
proof -
  from wf have fresh: "map_of (timers h) (next_timer h) = None"
    by (intro map_of_fresh) (simp add: well_formed_def)
  from w have mem: "sockets h ! w \<in> set (sockets h)" by simp
  with wf obtain sid where sid: "sessionId h = Some sid" "sid \<noteq> []" "url_accepted h"
    "url (sockets h ! w) = FASTAPI_WS_URL h @ ''/ws/voice/'' @ sid"
    unfolding well_formed_def by (fastforce split: option.splits)
  show "map_of (timers (step h (WsClose w))) (next_timer h) = Some (now h + 3000)"
    unfolding close_event [OF w op] by (simp add: fresh map_add_def)
  show "wsRef (step (step (step h (WsClose w)) (Advance n)) (TimerFires (next_timer h)))
           = Some (length (sockets h))"
    unfolding close_event [OF w op] using n sid by (simp add: fresh connect_def map_add_def)
  show "sockets (step (step (step h (WsClose w)) (Advance n)) (TimerFires (next_timer h)))
           = (sockets h)[w := (sockets h ! w)\<lparr>readyState := CLOSED\<rparr>] @
             [\<lparr>url = url (sockets h ! w), readyState = CONNECTING\<rparr>]"
    unfolding close_event [OF w op] using n sid by (simp add: fresh connect_def map_add_def)
qed

lemma disconnect_leaves_close_pending:
  assumes "w < length (sockets h)" and "readyState (sockets h ! w) \<noteq> CLOSED"
  shows "w < length (sockets (disconnect h))"
    and "readyState (sockets (disconnect h) ! w) \<noteq> CLOSED"
  using assms
  by (auto simp: disconnect_def Let_def close_socket_def nth_list_update split: option.splits)

lemma sockets_sendMessage: "sockets (sendMessage j h) = sockets h"
  by (simp add: sendMessage_def split: option.splits)

lemma endStream_leaves_close_pending:
  assumes "w < length (sockets h)" and "readyState (sockets h ! w) \<noteq> CLOSED"
  shows "w < length (sockets (endStream h))"
    and "readyState (sockets (endStream h) ! w) \<noteq> CLOSED"
  using assms disconnect_leaves_close_pending [of w "sendMessage (JObj [(''type'', JStr ''end_stream'')]) h"]
  by (simp_all add: endStream_def sockets_sendMessage)

text \<open>
  Claim C10. In any state a run of the hook reaches, the close event of a socket that
  has not yet closed sets \<open>isConnected\<close> to false and leaves a timeout pending, under a
  fresh handle stored in \<^verbatim>\<open>reconnectTimeoutRef\<close>, due 3000 ms after the event. The same
  holds when the close follows the hook's own \<^verbatim>\<open>endStream\<close> or \<^verbatim>\<open>disconnect\<close>: they
  clear the timeout that was pending and start the close, and the handler then
  schedules a new one. Once 3000 ms or more have passed and the timeout runs, \<open>connect\<close>
  opens a new socket to the same URL and makes it \<^verbatim>\<open>wsRef.current\<close>.
\<close>

theorem close_schedules_reconnect:
  assumes "h = run (init sid base ok t0) ins"
    and "w < length (sockets h)" and "readyState (sockets h ! w) \<noteq> CLOSED"
    and "h' = step h (WsClose w)"
    and "e = step (step h EndStream) (WsClose w)"
    and "d = step (step h Disconnect) (WsClose w)"
  shows "\<not> isConnected h'
       \<and> reconnectTimeoutRef h' = Some (next_timer h)
       \<and> map_of (timers h') (next_timer h) = Some (now h + 3000)
       \<and> \<not> isConnected e
       \<and> reconnectTimeoutRef e = Some (next_timer h)
       \<and> map_of (timers e) (next_timer h) = Some (now h + 3000)
       \<and> \<not> isConnected d
       \<and> reconnectTimeoutRef d = Some (next_timer h)
       \<and> map_of (timers d) (next_timer h) = Some (now h + 3000)
       \<and> (3000 \<le> n \<longrightarrow>
            wsRef (step (step h' (Advance n)) (TimerFires (next_timer h)))
              = Some (length (sockets h))
          \<and> sockets (step (step h' (Advance n)) (TimerFires (next_timer h)))
              = (sockets h)[w := (sockets h ! w)\<lparr>readyState := CLOSED\<rparr>] @
                [\<lparr>url = url (sockets h ! w), readyState = CONNECTING\<rparr>])"
proof -
  have wf: "well_formed h"
    using assms(1) by (simp add: well_formed_run well_formed_init)
  have wfe: "well_formed (step h EndStream)" and wfd: "well_formed (step h Disconnect)"
    using wf by (rule well_formed_step)+
  note w = assms(2) and op = assms(3)
  have we: "w < length (sockets (step h EndStream))"
      "readyState (sockets (step h EndStream) ! w) \<noteq> CLOSED"
    using endStream_leaves_close_pending [OF w op] by simp_all
  have wd: "w < length (sockets (step h Disconnect))"
      "readyState (sockets (step h Disconnect) ! w) \<noteq> CLOSED"
    using disconnect_leaves_close_pending [OF w op] by simp_all
  have ntd: "next_timer (disconnect k) = next_timer k" "now (disconnect k) = now k" for k
    by (simp_all add: disconnect_def Let_def split: option.splits)
  have nte: "next_timer (endStream h) = next_timer h" "now (endStream h) = now h"
    by (simp_all add: endStream_def ntd sendMessage_def split: option.splits)
  have a: "\<not> isConnected h' \<and> reconnectTimeoutRef h' = Some (next_timer h)"
    unfolding assms(4) close_event [OF w op] by simp
  have b: "\<not> isConnected e \<and> reconnectTimeoutRef e = Some (next_timer h)"
    unfolding assms(5) close_event [OF we] by (simp add: nte)
  have c: "\<not> isConnected d \<and> reconnectTimeoutRef d = Some (next_timer h)"
    unfolding assms(6) close_event [OF wd] by (simp add: ntd)
  have ta: "map_of (timers h') (next_timer h) = Some (now h + 3000)"
    unfolding assms(4) by (rule reconnect_fires(1) [OF wf w op order_refl])
  have tb: "map_of (timers e) (next_timer h) = Some (now h + 3000)"
    unfolding assms(5) using reconnect_fires(1) [OF wfe we order_refl] by (simp add: nte)
  have tc: "map_of (timers d) (next_timer h) = Some (now h + 3000)"
    unfolding assms(6) using reconnect_fires(1) [OF wfd wd order_refl] by (simp add: ntd)
  have r: "3000 \<le> n \<longrightarrow>
            wsRef (step (step h' (Advance n)) (TimerFires (next_timer h)))
              = Some (length (sockets h))
          \<and> sockets (step (step h' (Advance n)) (TimerFires (next_timer h)))
              = (sockets h)[w := (sockets h ! w)\<lparr>readyState := CLOSED\<rparr>] @
                [\<lparr>url = url (sockets h ! w), readyState = CONNECTING\<rparr>]"
    unfolding assms(4) using reconnect_fires(2,3) [OF wf w op] by blast
  from a b c ta tb tc r show ?thesis by blast
qed


theorem close_schedules_reconnect_witness:
  "0 < length (sockets (run (init (Some ''s1'') ''ws://localhost:8001'' True 1000) [Mount, WsOpen 0]))
   \<and> readyState (sockets (run (init (Some ''s1'') ''ws://localhost:8001'' True 1000)
         [Mount, WsOpen 0]) ! 0) = OPEN
   \<and> \<not> isConnected (step (step (run (init (Some ''s1'') ''ws://localhost:8001'' True 1000)
         [Mount, WsOpen 0]) EndStream) (WsClose 0))
   \<and> map_of (timers (step (step (run (init (Some ''s1'') ''ws://localhost:8001'' True 1000)
         [Mount, WsOpen 0]) EndStream) (WsClose 0))) 1 = Some 4000
   \<and> wsRef (step (step (step (run (init (Some ''s1'') ''ws://localhost:8001'' True 1000)
         [Mount, WsOpen 0]) (WsClose 0)) (Advance 3000)) (TimerFires 1)) = Some 1
   \<and> sockets (step (step (step (run (init (Some ''s1'') ''ws://localhost:8001'' True 1000)
         [Mount, WsOpen 0]) (WsClose 0)) (Advance 3000)) (TimerFires 1))
       = [\<lparr>url = ''ws://localhost:8001/ws/voice/s1'', readyState = CLOSED\<rparr>,
          \<lparr>url = ''ws://localhost:8001/ws/voice/s1'', readyState = CONNECTING\<rparr>]"
proof -
  define h where "h = run (init (Some ''s1'') ''ws://localhost:8001'' True 1000) [Mount, WsOpen 0]"
  have h: "h = \<lparr>sessionId = Some ''s1'', FASTAPI_WS_URL = ''ws://localhost:8001'',
      url_accepted = True, isConnected = True, messages = [], transcript = VStr [],
      error = VNull,
      wsRef = Some 0, reconnectTimeoutRef = None,
      sockets = [\<lparr>url = ''ws://localhost:8001/ws/voice/s1'', readyState = OPEN\<rparr>],
      sent = [], timers = [], next_timer = 1, now = 1000\<rparr>"
    by (simp add: h_def run_def init_def connect_def set_ready_def onopen_def)
  have w: "0 < length (sockets h)" and op: "readyState (sockets h ! 0) \<noteq> CLOSED"
    by (simp_all add: h)
  have ev: "next_timer h = 1" "now h = 1000" "length (sockets h) = 1"
    "readyState (sockets h ! 0) = OPEN"
    "(sockets h)[0 := (sockets h ! 0)\<lparr>readyState := CLOSED\<rparr>] @
       [\<lparr>url = url (sockets h ! 0), readyState = CONNECTING\<rparr>]
     = [\<lparr>url = ''ws://localhost:8001/ws/voice/s1'', readyState = CLOSED\<rparr>,
        \<lparr>url = ''ws://localhost:8001/ws/voice/s1'', readyState = CONNECTING\<rparr>]"
    by (simp_all add: h)
  from close_schedules_reconnect [OF h_def w op refl refl refl, of 3000]
  show ?thesis
    unfolding h_def [symmetric] using w ev by (simp del: step.simps)
qed

section \<open>Properties of the session coordinator\<close>

lemma cancel_pending_simps:
  "state (fst (cancel_pending s)) = state s"
  "turn_counter (fst (cancel_pending s)) = turn_counter s"
  "utterance_buffer (fst (cancel_pending s)) = utterance_buffer s"
  "idle_timer (fst (cancel_pending s)) = idle_timer s"
  "pending (fst (cancel_pending s)) = map_option (\<lambda>p. p\<lparr>cancelled := True\<rparr>) (pending s)"
  by (simp_all add: cancel_pending_def cancel_def split: option.splits)

lemma cancel_pending_actions:
  "snd (cancel_pending s) =
     (case pending s of None \<Rightarrow> [] | Some p \<Rightarrow> if cancelled p then [] else [Cancel (turn p)])"
  by (simp add: cancel_pending_def cancel_def split: option.splits)

lemmas handler_defs =
  on_audio_def on_partial_def on_final_def on_response_def on_synthesized_def
  on_synthesis_done_def on_pipeline_failed_def on_timer_def recover_def close_def
  barge_in_def finalize_def

lemma coherent_fresh: "coherent (fresh_session sid cfg)"
  by (simp add: coherent_def fresh_session_def)

lemma coherent_dispatch: "coherent s \<Longrightarrow> coherent (fst (dispatch s ev))"
  by (cases ev)
     (auto simp: coherent_def handler_defs cancel_pending_simps outstanding_def
        split: option.splits if_splits)

lemma coherent_handleInbound: "coherent s \<Longrightarrow> coherent (fst (handleInbound s ev))"
  by (simp add: handleInbound_def coherent_dispatch)

lemma coherent_process: "coherent s \<Longrightarrow> coherent (fst (process s evs))"
  by (induction evs arbitrary: s) (simp_all add: coherent_handleInbound)

lemma retired_dispatch:
  "retired a s \<Longrightarrow> retired a (fst (dispatch s ev)) \<and> \<not> list_ex (response_of a) (snd (dispatch s ev))"
  by (cases ev)
     (auto simp: retired_def handler_defs cancel_pending_simps cancel_pending_actions
        outstanding_def split: option.splits if_splits)

lemma retired_handleInbound:
  "retired a s \<Longrightarrow>
     retired a (fst (handleInbound s ev)) \<and> \<not> list_ex (response_of a) (snd (handleInbound s ev))"
  by (simp add: handleInbound_def retired_dispatch)

lemma retired_process:
  "retired a s \<Longrightarrow> \<not> list_ex (response_of a) (snd (process s evs))"
  by (induction evs arbitrary: s) (simp_all add: retired_handleInbound)


lemma outstanding_barge_in:
  assumes "coherent s" and "outstanding s a"
  shows "state s = Thinking \<or> state s = Speaking"
    and "a \<le> turn_counter s"
    and "state (fst (barge_in s)) = Listening"
    and "snd (barge_in s) = [Cancel a]"
    and "\<not> outstanding (fst (barge_in s)) a"
  using assms
  by (auto simp: coherent_def outstanding_def barge_in_def cancel_pending_simps
        cancel_pending_actions split: option.splits)

lemma barge_in_step:
  assumes "coherent s" and "outstanding s a"
  shows "on_final txt s =
           (fst (finalize txt (fst (barge_in s))),
            [Cancel a, Send (Some (Suc (turn_counter s))) (Transcript txt True),
             Start_pipeline (Suc (turn_counter s)) txt])"
    and "retired a (fst (on_final txt s))"
  using assms
  by (auto simp: coherent_def outstanding_def retired_def on_final_def barge_in_def finalize_def
        cancel_pending_simps cancel_pending_actions split: option.splits)

text \<open>
  Claim C1. Take any point a session reaches from its opening, with a Pending Response
  outstanding for turn \<open>a\<close>; the session is then in \<open>Thinking\<close> or \<open>Speaking\<close>. When a
  final transcript (or a text message) arrives, barge-in cancels the Pending Response
  with its synthesis stream and takes the session directly to \<open>Listening\<close>; the
  coordinator's actions are the cancellation of \<open>a\<close>, then the new turn's transcript
  event, then the start of its pipeline run; the new turn is a later one. From that
  arrival on, whatever events follow (the generator's text or audio of \<open>a\<close> arriving
  late among them), no \<open>agent_response\<close> and no \<open>audio_chunk\<close> of turn \<open>a\<close> is sent.
\<close>

theorem barge_in_suppression:
  assumes "s = fst (process (fresh_session sid cfg) before)"
    and "outstanding s a"
    and "ev = Final_transcript txt \<or> ev = Text_message txt"
  shows "(state s = Thinking \<or> state s = Speaking)
       \<and> state (fst (barge_in s)) = Listening
       \<and> snd (barge_in s) = [Cancel a]
       \<and> \<not> outstanding (fst (barge_in s)) a
       \<and> handleInbound s ev =
           (fst (finalize txt (fst (barge_in s))),
            [Cancel a, Send (Some (Suc (turn_counter s))) (Transcript txt True),
             Start_pipeline (Suc (turn_counter s)) txt])
       \<and> a < Suc (turn_counter s)
       \<and> \<not> list_ex (response_of a) (snd (process s (ev # after)))"
proof -
  have c: "coherent s"
    using assms(1) by (simp add: coherent_process coherent_fresh)
  note b = outstanding_barge_in [OF c assms(2)]
  from b(1) have live: "state s \<noteq> Ended" by auto
  have same: "dispatch s ev = on_final txt s"
    using assms(3) by auto
  have step: "handleInbound s ev =
           (fst (finalize txt (fst (barge_in s))),
            [Cancel a, Send (Some (Suc (turn_counter s))) (Transcript txt True),
             Start_pipeline (Suc (turn_counter s)) txt])"
    using live by (simp add: handleInbound_def same barge_in_step(1) [OF c assms(2)])
  have r: "retired a (fst (handleInbound s ev))"
    using live barge_in_step(2) [OF c assms(2), of "txt"] by (simp add: handleInbound_def same)
  have quiet: "\<not> list_ex (response_of a) (snd (process (fst (handleInbound s ev)) after))"
    by (rule retired_process [OF r])
  have "\<not> list_ex (response_of a) (snd (process s (ev # after)))"
    using quiet by (simp add: step)
  with b step show ?thesis by simp
qed


theorem barge_in_suppression_witness:
  "outstanding (fst (process
      (fresh_session ''s1'' \<lparr>name = ''Guide'', system_prompt = ''You are a helpful travel guide'',
         models = [''qwen2.5:1.5b'', ''llama3.2:1b'']\<rparr>)
      [Text_message ''Tell me a long story'', Response_ready 1 ''Once upon a time'',
       Synthesized 1 ''QUFB''])) 1
   \<and> snd (process (fst (process
      (fresh_session ''s1'' \<lparr>name = ''Guide'', system_prompt = ''You are a helpful travel guide'',
         models = [''qwen2.5:1.5b'', ''llama3.2:1b'']\<rparr>)
      [Text_message ''Tell me a long story'', Response_ready 1 ''Once upon a time'',
       Synthesized 1 ''QUFB'']))
      (Text_message ''stop'' #
       [Synthesized 1 ''QkJC'', Response_ready 1 ''and then'', Synthesis_done 1,
        Response_ready 2 ''Stopping.'']))
     = [Cancel 1, Send (Some 2) (Transcript ''stop'' True), Start_pipeline 2 ''stop'',
        Send (Some 2) (Agent_response ''Stopping.''), Start_synthesis 2 ''Stopping.'']
   \<and> \<not> list_ex (response_of 1) (snd (process (fst (process
      (fresh_session ''s1'' \<lparr>name = ''Guide'', system_prompt = ''You are a helpful travel guide'',
         models = [''qwen2.5:1.5b'', ''llama3.2:1b'']\<rparr>)
      [Text_message ''Tell me a long story'', Response_ready 1 ''Once upon a time'',
       Synthesized 1 ''QUFB'']))
      (Text_message ''stop'' #
       [Synthesized 1 ''QkJC'', Response_ready 1 ''and then'', Synthesis_done 1,
        Response_ready 2 ''Stopping.''])))"
proof -
  define s where "s = fst (process
      (fresh_session ''s1'' \<lparr>name = ''Guide'', system_prompt = ''You are a helpful travel guide'',
         models = [''qwen2.5:1.5b'', ''llama3.2:1b'']\<rparr>)
      [Text_message ''Tell me a long story'', Response_ready 1 ''Once upon a time'',
       Synthesized 1 ''QUFB''])"
  have s: "s = \<lparr>session_id = ''s1'',
      agent = \<lparr>name = ''Guide'', system_prompt = ''You are a helpful travel guide'',
         models = [''qwen2.5:1.5b'', ''llama3.2:1b'']\<rparr>,
      state = Speaking, turn_counter = 1, utterance_buffer = [], held_audio = [],
      pending = Some \<lparr>turn = 1, responded = True, cancelled = False\<rparr>, idle_timer = False\<rparr>"
    by (simp add: s_def fresh_session_def handleInbound_def on_final_def finalize_def
        on_response_def on_synthesized_def)
  have out: "outstanding s 1"
    by (simp add: s outstanding_def)
  have log: "snd (process s (Text_message ''stop'' #
       [Synthesized 1 ''QkJC'', Response_ready 1 ''and then'', Synthesis_done 1,
        Response_ready 2 ''Stopping.'']))
     = [Cancel 1, Send (Some 2) (Transcript ''stop'' True), Start_pipeline 2 ''stop'',
        Send (Some 2) (Agent_response ''Stopping.''), Start_synthesis 2 ''Stopping.'']"
    by (simp add: s fresh_session_def handleInbound_def on_final_def finalize_def barge_in_def
        cancel_pending_def cancel_def on_response_def on_synthesized_def on_synthesis_done_def)
  from barge_in_suppression [OF s_def out, of "Text_message ''stop''" "''stop''"
      "[Synthesized 1 ''QkJC'', Response_ready 1 ''and then'', Synthesis_done 1,
        Response_ready 2 ''Stopping.'']"]
  have "\<not> list_ex (response_of 1) (snd (process s (Text_message ''stop'' #
       [Synthesized 1 ''QkJC'', Response_ready 1 ''and then'', Synthesis_done 1,
        Response_ready 2 ''Stopping.''])))"
    by blast
  with out log show ?thesis
    unfolding s_def by simp
qed

lemma sends_append: "sends (as @ bs) = sends as @ sends bs"
  by (induction as rule: sends.induct) simp_all

lemma sends_cancel_pending: "sends (snd (cancel_pending s)) = []"
  by (simp add: cancel_pending_actions split: option.splits)

lemma recover_result:
  "sends (snd (recover msg s)) = [Error_event msg]"
  "state (fst (recover msg s)) = Idle"
  "state (fst (on_final t (fst (recover msg s)))) = Thinking"
  by (simp_all add: recover_def sends_append sends_cancel_pending on_final_def finalize_def)

lemma ended_absorbs: "state s = Ended \<Longrightarrow> process s evs = (s, [])"
  by (induction evs) (simp_all add: handleInbound_def)

text \<open>
  Claim C7. In a session that has not ended, an adapter error (a transcription failure,
  or the failure of a classifier, generator or synthesis call of the outstanding run)
  sends exactly one frame to the transport, the typed error event with its message, and
  leaves the session in \<open>Idle\<close>, where it goes on serving: a text message then starts
  the next turn. A closed transport takes the session to \<open>Ended\<close> in that very step,
  with nothing sent, and nothing that arrives later is acted on.
\<close>

theorem adapter_errors_recover:
  assumes "state s \<noteq> Ended"
  shows "sends (snd (handleInbound s (Transcription_failed msg))) = [Error_event msg]
       \<and> state (fst (handleInbound s (Transcription_failed msg))) = Idle
       \<and> state (fst (handleInbound (fst (handleInbound s (Transcription_failed msg)))
            (Text_message t))) = Thinking
       \<and> (outstanding s r \<longrightarrow>
            sends (snd (handleInbound s (Pipeline_failed stg r msg))) = [Error_event msg]
          \<and> state (fst (handleInbound s (Pipeline_failed stg r msg))) = Idle
          \<and> state (fst (handleInbound (fst (handleInbound s (Pipeline_failed stg r msg)))
               (Text_message t))) = Thinking)
       \<and> state (fst (handleInbound s Transport_closed)) = Ended
       \<and> sends (snd (handleInbound s Transport_closed)) = []
       \<and> process (fst (handleInbound s Transport_closed)) evs
           = (fst (handleInbound s Transport_closed), [])"
proof -
  have closed: "state (fst (handleInbound s Transport_closed)) = Ended"
    using assms by (simp add: handleInbound_def close_def)
  have silent: "sends (snd (handleInbound s Transport_closed)) = []"
    using assms by (simp add: handleInbound_def close_def sends_cancel_pending)
  have a: "handleInbound s (Transcription_failed msg) = recover msg s"
    using assms by (simp add: handleInbound_def)
  have b: "outstanding s r \<Longrightarrow> handleInbound s (Pipeline_failed stg r msg) = recover msg s"
    using assms by (simp add: handleInbound_def on_pipeline_failed_def)
  have c: "handleInbound (fst (recover msg s)) (Text_message t) = on_final t (fst (recover msg s))"
    by (simp add: handleInbound_def recover_result)
  show ?thesis
    using closed silent ended_absorbs [OF closed] by (auto simp: a b c recover_result)
qed

theorem adapter_errors_recover_witness:
  "state (fst (handleInbound (fresh_session ''s1'' \<lparr>name = ''Guide'',
        system_prompt = ''You are a helpful travel guide'', models = []\<rparr>)
        (Text_message ''hi''))) = Thinking
   \<and> outstanding (fst (handleInbound (fresh_session ''s1'' \<lparr>name = ''Guide'',
        system_prompt = ''You are a helpful travel guide'', models = []\<rparr>)
        (Text_message ''hi''))) 1
   \<and> handleInbound (fst (handleInbound (fresh_session ''s1'' \<lparr>name = ''Guide'',
        system_prompt = ''You are a helpful travel guide'', models = []\<rparr>)
        (Text_message ''hi''))) (Pipeline_failed Generator 1 ''model backend unavailable'')
      = (\<lparr>session_id = ''s1'', agent = \<lparr>name = ''Guide'',
             system_prompt = ''You are a helpful travel guide'', models = []\<rparr>,
           state = Idle, turn_counter = 1, utterance_buffer = [], held_audio = [],
           pending = Some \<lparr>turn = 1, responded = False, cancelled = True\<rparr>, idle_timer = True\<rparr>,
         [Cancel 1, Send None (Error_event ''model backend unavailable'')])
   \<and> state (fst (handleInbound (fst (handleInbound (fresh_session ''s1'' \<lparr>name = ''Guide'',
        system_prompt = ''You are a helpful travel guide'', models = []\<rparr>)
        (Text_message ''hi''))) Transport_closed)) = Ended"
proof -
  define s where "s = fst (handleInbound (fresh_session ''s1'' \<lparr>name = ''Guide'',
        system_prompt = ''You are a helpful travel guide'', models = []\<rparr>)
        (Text_message ''hi''))"
  have s: "s = \<lparr>session_id = ''s1'', agent = \<lparr>name = ''Guide'',
             system_prompt = ''You are a helpful travel guide'', models = []\<rparr>,
           state = Thinking, turn_counter = 1, utterance_buffer = [], held_audio = [],
           pending = Some \<lparr>turn = 1, responded = False, cancelled = False\<rparr>, idle_timer = False\<rparr>"
    by (simp add: s_def fresh_session_def handleInbound_def on_final_def finalize_def)
  have live: "state s \<noteq> Ended" and thinking: "state s = Thinking" and out: "outstanding s 1"
    by (simp_all add: s outstanding_def)
  have step: "handleInbound s (Pipeline_failed Generator 1 ''model backend unavailable'')
      = (\<lparr>session_id = ''s1'', agent = \<lparr>name = ''Guide'',
             system_prompt = ''You are a helpful travel guide'', models = []\<rparr>,
           state = Idle, turn_counter = 1, utterance_buffer = [], held_audio = [],
           pending = Some \<lparr>turn = 1, responded = False, cancelled = True\<rparr>, idle_timer = True\<rparr>,
         [Cancel 1, Send None (Error_event ''model backend unavailable'')])"
    by (simp add: s handleInbound_def on_pipeline_failed_def outstanding_def recover_def
        cancel_pending_def cancel_def)
  from adapter_errors_recover [OF live, of "''model backend unavailable''" "''again''" 1 Generator "[]"]
  have "state (fst (handleInbound s Transport_closed)) = Ended"
    by blast
  with thinking out step show ?thesis
    unfolding s_def by simp
qed

end
